theory Spec2Isabelle
  imports Complex_Main "HOL-Library.Char_ord" "HOL-Library.List_Lexorder"
begin

section \<open>Exceptions of the Python program\<close>

text \<open>
  Every \<^verbatim>\<open>raise\<close>, failed \<^verbatim>\<open>assert\<close> and library exception that the modelled functions
  can produce is a value of this type; a function that can raise returns
  \<open>error + 'a\<close>, with \<open>Inl\<close> carrying the exception.
\<close>

datatype error =
    ValueError
  | IndexError
  | KeyError
  | ZeroDivisionError
  | AssertionError
  | UnboundLocalError
  | FileNotFoundError

section \<open>Range conversions (util/__init__.py, lines 66-75)\<close>

text \<open>
  A tensor is modelled by the list of its elements, and an element by an exact real
  number: the two functions act on every element independently.
\<close>

definition sigmoid_to_tanh :: "real list \<Rightarrow> real list" where
  "sigmoid_to_tanh x = map (\<lambda>v. v * 2.0 - 1.0) x"

definition tanh_to_sigmoid :: "real list \<Rightarrow> real list" where
  "tanh_to_sigmoid x = map (\<lambda>v. (v + 1.0) / 2.0) x"

section \<open>Label lookup table (util/__init__.py, lines 197-222; dataset/datahandler.py, lines 97-121)\<close>

text \<open>
  The functions \<^verbatim>\<open>_map\<close> of the utility package (here \<open>util_map\<close>) and
  \<^verbatim>\<open>BinaryScan.map\<close> have the same body. The dictionary \<^verbatim>\<open>mapdict\<close> is an association list in iteration (insertion)
  order, since the loop keeps the \<^verbatim>\<open>nel\<close> of the item it visits last; a dictionary
  has no repeated key. A value is an integer or a list of integers
  (\<^verbatim>\<open>isinstance(data, list)\<close>).
\<close>

datatype mval = Scalar int | Vec "int list"

type_synonym mapdict = "(int \<times> mval) list"

text \<open>
  The table is a one-dimensional array of integers or a two-dimensional one (a list of
  rows). Entries are unbounded integers: the 32-bit storage of the array is not
  modelled.
\<close>

datatype lut = Lut1 "int list" | Lut2 "int list list"

fun lut_len :: "lut \<Rightarrow> nat" where
  "lut_len (Lut1 xs) = length xs"
| "lut_len (Lut2 rs) = length rs"

definition nel_of :: "mval \<Rightarrow> nat" where
  "nel_of data = (case data of Vec d \<Rightarrow> length d | Scalar _ \<Rightarrow> 1)"

text \<open>
  The first loop: \<^verbatim>\<open>maxkey\<close> starts at 0 and \<^verbatim>\<open>nel\<close> is unbound until the first item;
  every item overwrites \<^verbatim>\<open>nel\<close>.
\<close>

fun scan_keys :: "mapdict \<Rightarrow> int \<times> nat option \<Rightarrow> int \<times> nat option" where
  "scan_keys [] st = st"
| "scan_keys ((key, data) # rest) (maxkey, nel) =
     scan_keys rest (if key > maxkey then key else maxkey, Some (nel_of data))"

definition np_zeros :: "int \<Rightarrow> nat \<Rightarrow> lut" where
  "np_zeros rows nel =
     (if nel > 1 then Lut2 (replicate (nat rows) (replicate nel 0))
      else Lut1 (replicate (nat rows) 0))"

text \<open>
  An integer index into an array of \<open>n\<close> entries: a negative index counts from the
  end, and an index outside \<open>[-n, n)\<close> raises IndexError (here \<open>None\<close>).
\<close>

definition resolve :: "nat \<Rightarrow> int \<Rightarrow> nat option" where
  "resolve n i =
     (if 0 \<le> i \<and> i < int n then Some (nat i)
      else if - int n \<le> i \<and> i < 0 then Some (nat (i + int n))
      else None)"

text \<open>
  The assignment \<^verbatim>\<open>lut[key] = data\<close>. The index is resolved first. An element of
  the one-dimensional table takes a scalar, and a list raises ValueError (an array
  element cannot be set with a sequence). A row of the two-dimensional table takes a
  scalar, which is broadcast, a list of the length of the row, or a list of one
  element, which is broadcast; any other list raises ValueError.
\<close>

fun lut_set :: "lut \<Rightarrow> int \<Rightarrow> mval \<Rightarrow> error + lut" where
  "lut_set (Lut1 xs) key data =
     (case resolve (length xs) key of
        None \<Rightarrow> Inl IndexError
      | Some i \<Rightarrow>
          (case data of
             Scalar v \<Rightarrow> Inr (Lut1 (xs[i := v]))
           | Vec d \<Rightarrow> Inl ValueError))"
| "lut_set (Lut2 rs) key data =
     (case resolve (length rs) key of
        None \<Rightarrow> Inl IndexError
      | Some i \<Rightarrow>
          (case data of
             Scalar v \<Rightarrow> Inr (Lut2 (rs[i := replicate (length (rs ! i)) v]))
           | Vec d \<Rightarrow>
               if length d = length (rs ! i) then Inr (Lut2 (rs[i := d]))
               else if length d = 1
                 then Inr (Lut2 (rs[i := replicate (length (rs ! i)) (hd d)]))
               else Inl ValueError))"

text \<open>
  The second loop. The state is the table and the keys printed so far
  (\<^verbatim>\<open>print("Wrong key ", key)\<close>); only IndexError is caught, any other exception ends
  the call.
\<close>

fun fill :: "mapdict \<Rightarrow> lut \<Rightarrow> int list \<Rightarrow> int list \<times> (error + lut)" where
  "fill [] lut out = (out, Inr lut)"
| "fill ((key, data) # rest) lut out =
     (case lut_set lut key data of
        Inr lut' \<Rightarrow> fill rest lut' out
      | Inl e \<Rightarrow> if e = IndexError then fill rest lut (out @ [key]) else (out, Inl e))"

text \<open>
  Lines 201-218 (and 102-119): the printed keys, and the table or the exception.
\<close>

definition build_lut :: "mapdict \<Rightarrow> int list \<times> (error + lut)" where
  "build_lut mapdict =
     (case scan_keys mapdict (0, None) of
        (maxkey, None) \<Rightarrow> ([], Inl UnboundLocalError)
      | (maxkey, Some nel) \<Rightarrow> fill mapdict (np_zeros (maxkey + 100) nel) [])"

text \<open>The lookup \<^verbatim>\<open>lut[label]\<close>, for one label and for an array of labels.\<close>

fun lut_get :: "lut \<Rightarrow> int \<Rightarrow> error + mval" where
  "lut_get (Lut1 xs) i =
     (case resolve (length xs) i of
        None \<Rightarrow> Inl IndexError
      | Some j \<Rightarrow> Inr (Scalar (xs ! j)))"
| "lut_get (Lut2 rs) i =
     (case resolve (length rs) i of
        None \<Rightarrow> Inl IndexError
      | Some j \<Rightarrow> Inr (Vec (rs ! j)))"

fun lut_take :: "lut \<Rightarrow> int list \<Rightarrow> error + mval list" where
  "lut_take lut [] = Inr []"
| "lut_take lut (l # ls) =
     (case lut_get lut l of
        Inl e \<Rightarrow> Inl e
      | Inr v \<Rightarrow> (case lut_take lut ls of Inl e \<Rightarrow> Inl e | Inr vs \<Rightarrow> Inr (v # vs)))"

definition util_map :: "int list \<Rightarrow> mapdict \<Rightarrow> int list \<times> (error + mval list)" where
  "util_map label mapdict =
     (case build_lut mapdict of
        (out, Inl e) \<Rightarrow> (out, Inl e)
      | (out, Inr lut) \<Rightarrow> (out, lut_take lut label))"

definition BinaryScan_map :: "int list \<Rightarrow> mapdict \<Rightarrow> int list \<times> (error + mval list)" where
  "BinaryScan_map label mapdict =
     (case build_lut mapdict of
        (out, Inl e) \<Rightarrow> (out, Inl e)
      | (out, Inr lut) \<Rightarrow> (out, lut_take lut label))"







section \<open>Array elements\<close>

text \<open>
  A scan file holds finite numbers, modelled as exact reals (rounding is not
  modelled). Floating-point division by zero does not raise in the array library: it
  yields \<^verbatim>\<open>nan\<close> or an infinity, so the elements of a computed array range over
  \<open>fval\<close>. Signed zeros are not distinguished.
\<close>

datatype fval = Fin real | PInf | NInf | NaN

fun fsub :: "fval \<Rightarrow> fval \<Rightarrow> fval" where
  "fsub (Fin a) (Fin b) = Fin (a - b)"
| "fsub NaN _ = NaN"
| "fsub _ NaN = NaN"
| "fsub PInf PInf = NaN"
| "fsub NInf NInf = NaN"
| "fsub PInf _ = PInf"
| "fsub NInf _ = NInf"
| "fsub (Fin a) PInf = NInf"
| "fsub (Fin a) NInf = PInf"

fun fdiv :: "fval \<Rightarrow> fval \<Rightarrow> fval" where
  "fdiv (Fin a) (Fin b) =
     (if b = 0 then (if a = 0 then NaN else if a > 0 then PInf else NInf)
      else Fin (a / b))"
| "fdiv NaN _ = NaN"
| "fdiv _ NaN = NaN"
| "fdiv (Fin a) _ = Fin 0"
| "fdiv PInf (Fin b) = (if b \<ge> 0 then PInf else NInf)"
| "fdiv NInf (Fin b) = (if b \<ge> 0 then NInf else PInf)"
| "fdiv _ _ = NaN"

fun fmul :: "fval \<Rightarrow> fval \<Rightarrow> fval" where
  "fmul (Fin a) (Fin b) = Fin (a * b)"
| "fmul NaN _ = NaN"
| "fmul _ NaN = NaN"
| "fmul PInf (Fin b) = (if b = 0 then NaN else if b > 0 then PInf else NInf)"
| "fmul NInf (Fin b) = (if b = 0 then NaN else if b > 0 then NInf else PInf)"
| "fmul (Fin a) PInf = (if a = 0 then NaN else if a > 0 then PInf else NInf)"
| "fmul (Fin a) NInf = (if a = 0 then NaN else if a > 0 then NInf else PInf)"
| "fmul PInf PInf = PInf"
| "fmul PInf NInf = NInf"
| "fmul NInf PInf = NInf"
| "fmul NInf NInf = PInf"

text \<open>
  A two-dimensional array is the list of its rows; an array of shape (channels, H, W)
  is the list of its channels.
\<close>

type_synonym 'a grid = "'a list list"

section \<open>Single-domain dataset (dataset/datahandler.py, lines 15-73)\<close>

text \<open>
  The directory tree and the scan files are the environment of the program:
  \<open>listing\<close> gives, for an existing directory, the paths that the glob pattern
  matches (\<open>None\<close> when the directory does not exist); \<open>npy\<close> gives the array that a
  file holds (\<open>None\<close> when it cannot be loaded).
\<close>

record filesystem =
  listing :: "string \<Rightarrow> string list option"
  npy :: "string \<Rightarrow> real grid list option"

text \<open>
  The sensor statistics \<^verbatim>\<open>data_stats\<close> are a dictionary from names to configuration
  values; its length is the number of its keys.
\<close>

datatype stat = SBool bool | SNum real | SList "real list"

type_synonym stats = "(string \<times> stat) list"

fun truthy :: "stat \<Rightarrow> bool" where
  "truthy (SBool b) = b"
| "truthy (SNum x) = (x \<noteq> 0)"
| "truthy (SList xs) = (xs \<noteq> [])"

record UnaryScan =
  data_dir :: string
  data_stats :: stats
  scan_file_names :: "string list"

text \<open>The slices \<^verbatim>\<open>xs[:m]\<close> and \<^verbatim>\<open>xs[m:]\<close>: a negative bound counts from the end.\<close>

definition slice_to :: "'a list \<Rightarrow> int \<Rightarrow> 'a list" where
  "slice_to xs m =
     (if m < 0 then take (nat (int (length xs) + m)) xs else take (nat m) xs)"


definition UnaryScan_init :: "filesystem \<Rightarrow> string \<Rightarrow> stats \<Rightarrow> int \<Rightarrow> error + UnaryScan" where
  "UnaryScan_init fs dir dstats max_dataset_size =
     (case listing fs dir of
        None \<Rightarrow> Inl ValueError
      | Some names \<Rightarrow>
          Inr \<lparr>data_dir = dir, data_stats = dstats,
               scan_file_names =
                 (if max_dataset_size \<noteq> - 1 then slice_to (sort names) max_dataset_size
                  else sort names)\<rparr>)"

definition UnaryScan_len :: "UnaryScan \<Rightarrow> nat" where
  "UnaryScan_len ds = length (scan_file_names ds)"

text \<open>Indexing a list: a negative index counts from the end.\<close>

definition py_index :: "'a list \<Rightarrow> int \<Rightarrow> 'a option" where
  "py_index xs i =
     (if 0 \<le> i \<and> i < int (length xs) then Some (xs ! nat i)
      else if - int (length xs) \<le> i \<and> i < 0 then Some (xs ! nat (i + int (length xs)))
      else None)"

text \<open>
  \<^verbatim>\<open>b_mask = proj[5] == 1.0\<close>, and the selection \<^verbatim>\<open>proj[i][b_mask]\<close>: the values of the
  channel at the pixels where the mask holds, in row-major order.
\<close>

definition b_mask_of :: "real grid \<Rightarrow> bool grid" where
  "b_mask_of m = map (map (\<lambda>x. x = 1.0)) m"

definition masked_vals :: "real grid \<Rightarrow> bool grid \<Rightarrow> real list" where
  "masked_vals ch b =
     concat (map2 (\<lambda>row brow. map fst (filter snd (zip row brow))) ch b)"

text \<open>The minimum and the maximum of a selection; an empty selection raises ValueError.\<close>

definition np_min :: "real list \<Rightarrow> error + real" where
  "np_min vals = (case vals of [] \<Rightarrow> Inl ValueError | v # vs \<Rightarrow> Inr (fold min vs v))"

definition np_max :: "real list \<Rightarrow> error + real" where
  "np_max vals = (case vals of [] \<Rightarrow> Inl ValueError | v # vs \<Rightarrow> Inr (fold max vs v))"

text \<open>The assignment \<^verbatim>\<open>a[b_mask] = f(a[b_mask])\<close> with an elementwise \<open>f\<close>.\<close>

definition assign_masked :: "('a \<Rightarrow> 'a) \<Rightarrow> 'a grid \<Rightarrow> bool grid \<Rightarrow> 'a grid" where
  "assign_masked f a b = map2 (map2 (\<lambda>x m. if m then f x else x)) a b"

text \<open>
  One pass of the loop of lines 49-53, for one channel (\<open>vMin\<close> and \<open>vMax\<close> are the
  variables \<^verbatim>\<open>Min\<close> and \<^verbatim>\<open>Max\<close>): nothing tests the divisor \<^verbatim>\<open>Max - Min\<close>.
\<close>

definition normalize_channel :: "real grid \<Rightarrow> bool grid \<Rightarrow> error + fval grid" where
  "normalize_channel ch b =
     (case np_min (masked_vals ch b) of
        Inl e \<Rightarrow> Inl e
      | Inr vMin \<Rightarrow>
          (case np_max (masked_vals ch b) of
             Inl e \<Rightarrow> Inl e
           | Inr vMax \<Rightarrow>
               let ch1 = assign_masked
                           (\<lambda>x. fdiv (fsub x (Fin vMin)) (fsub (Fin vMax) (Fin vMin)))
                           (map (map Fin) ch) b;
                   ch2 = assign_masked (\<lambda>x. fdiv (fsub x (Fin 0.5)) (Fin 0.5)) ch1 b
               in Inr ch2))"

fun normalize_all :: "real grid list \<Rightarrow> bool grid \<Rightarrow> error + fval grid list" where
  "normalize_all [] b = Inr []"
| "normalize_all (ch # chs) b =
     (case normalize_channel ch b of
        Inl e \<Rightarrow> Inl e
      | Inr c \<Rightarrow>
          (case normalize_all chs b of Inl e \<Rightarrow> Inl e | Inr cs \<Rightarrow> Inr (c # cs)))"

text \<open>
  \<^verbatim>\<open>proj[6:9] = proj[6:9] / 127.5 - 1.0\<close>; \<^verbatim>\<open>np.repeat(proj, 4, axis=1)\<close>, which on an
  array of shape (channels, H, W) repeats every row of every channel; and the product
  of a block of channels with the one-channel mask.
\<close>

definition rescale_rgb :: "fval grid list \<Rightarrow> fval grid list" where
  "rescale_rgb proj =
     take 6 proj
     @ map (map (map (\<lambda>v. fsub (fdiv v (Fin 127.5)) (Fin 1.0)))) (take 3 (drop 6 proj))
     @ drop 9 proj"

definition np_repeat_axis1 :: "nat \<Rightarrow> 'a grid list \<Rightarrow> 'a grid list" where
  "np_repeat_axis1 k proj = map (\<lambda>ch. concat (map (replicate k) ch)) proj"

definition times_mask :: "fval grid list \<Rightarrow> fval grid \<Rightarrow> fval grid list" where
  "times_mask chans m = map (\<lambda>ch. map2 (map2 fmul) ch m) chans"

text \<open>
  The tuple that indexed access returns; \<open>proj_rgb\<close> is \<open>None\<close> for the empty list
  returned when the sensor has no colour channels.
\<close>

record sample =
  proj_xyz :: "fval grid list"
  proj_range :: "fval grid list"
  proj_remission :: "fval grid list"
  proj_mask :: "fval grid list"
  proj_rgb :: "fval grid list option"

definition UnaryScan_getitem :: "UnaryScan \<Rightarrow> filesystem \<Rightarrow> int \<Rightarrow> error + sample" where
  "UnaryScan_getitem ds fs index =
     (case py_index (scan_file_names ds) index of
        None \<Rightarrow> Inl IndexError
      | Some scan_file \<Rightarrow>
     (case npy fs scan_file of
        None \<Rightarrow> Inl FileNotFoundError
      | Some proj \<Rightarrow>
     if length proj < 6 then Inl IndexError
     else
     (case normalize_all (take 5 proj) (b_mask_of (proj ! 5)) of
        Inl e \<Rightarrow> Inl e
      | Inr chans \<Rightarrow>
     (case map_of (data_stats ds) ''have_rgb'' of
        None \<Rightarrow> Inl KeyError
      | Some have_rgb \<Rightarrow>
          let proj1 = chans @ map (map (map Fin)) (drop 5 proj);
              proj2 = (if truthy have_rgb then rescale_rgb proj1 else proj1);
              proj3 = np_repeat_axis1 4 proj2;
              mask = proj3 ! 5
          in Inr \<lparr>proj_xyz = times_mask (take 3 proj3) mask,
                  proj_range = times_mask (take 1 (drop 3 proj3)) mask,
                  proj_remission = times_mask (take 1 (drop 4 proj3)) mask,
                  proj_mask = [mask],
                  proj_rgb = (if truthy have_rgb
                              then Some (times_mask (take 3 (drop 6 proj3)) mask)
                              else None)\<rparr>))))"

section \<open>Paired two-domain dataset (dataset/datahandler.py, lines 75-95)\<close>

record BinaryScan =
  datasetA :: UnaryScan
  datasetB :: UnaryScan
  sizeA :: nat
  sizeB :: nat

text \<open>
  Lines 86-87 take the lengths of the two sensor-statistics dictionaries, not of the
  two datasets.
\<close>

definition BinaryScan_init ::
  "filesystem \<Rightarrow> string \<Rightarrow> stats \<Rightarrow> string \<Rightarrow> stats \<Rightarrow> int \<Rightarrow> error + BinaryScan" where
  "BinaryScan_init fs data_dirA data_statsA data_dirB data_statsB max_dataset_size =
     (case UnaryScan_init fs data_dirA data_statsA max_dataset_size of
        Inl e \<Rightarrow> Inl e
      | Inr dsA \<Rightarrow>
          (case UnaryScan_init fs data_dirB data_statsB max_dataset_size of
             Inl e \<Rightarrow> Inl e
           | Inr dsB \<Rightarrow>
               Inr \<lparr>datasetA = dsA, datasetB = dsB,
                    sizeA = length data_statsA, sizeB = length data_statsB\<rparr>))"

definition BinaryScan_len :: "BinaryScan \<Rightarrow> nat" where
  "BinaryScan_len bs = max (sizeA bs) (sizeB bs)"

text \<open>
  Line 90, \<^verbatim>\<open>index % self.sizeA\<close>: the remainder has the sign of the divisor, and a
  zero divisor raises ZeroDivisionError.
\<close>

definition BinaryScan_index_A :: "BinaryScan \<Rightarrow> int \<Rightarrow> error + int" where
  "BinaryScan_index_A bs index =
     (if sizeA bs = 0 then Inl ZeroDivisionError else Inr (index mod int (sizeA bs)))"

text \<open>
  Indexed access. The value \<open>rnd\<close> is the one that the random source returns for
  \<^verbatim>\<open>np.random.randint(0, self.sizeB)\<close>: the library draws it from \<open>[0, sizeB)\<close> and
  raises ValueError when that range is empty.
\<close>

definition BinaryScan_getitem ::
  "BinaryScan \<Rightarrow> filesystem \<Rightarrow> int \<Rightarrow> int \<Rightarrow> error + sample \<times> sample" where
  "BinaryScan_getitem bs fs rnd index =
     (case BinaryScan_index_A bs index of
        Inl e \<Rightarrow> Inl e
      | Inr index_A \<Rightarrow>
          if sizeB bs = 0 then Inl ValueError
          else
            (case UnaryScan_getitem (datasetA bs) fs index_A of
               Inl e \<Rightarrow> Inl e
             | Inr a \<Rightarrow>
                 (case UnaryScan_getitem (datasetB bs) fs rnd of
                    Inl e \<Rightarrow> Inl e
                  | Inr b \<Rightarrow> Inr (a, b))))"

section \<open>Loader (dataset/datahandler.py, lines 124-179)\<close>













section \<open>Notions used to state the properties of the datasets\<close>

text \<open>
  An array of shape (H, W); a scan of shape (channels, H, W) with the six channels
  that indexed access reads; the values that channel \<open>i\<close> takes at the valid pixels;
  the two steps of the normalisation of one pixel, and of a channel; channels 0-4 of
  the returned tuple (xyz, range, remission).
\<close>

definition wf_grid :: "'a grid \<Rightarrow> nat \<Rightarrow> nat \<Rightarrow> bool" where
  "wf_grid g H W = (length g = H \<and> (\<forall>row \<in> set g. length row = W))"

definition wf_scan :: "real grid list \<Rightarrow> nat \<Rightarrow> nat \<Rightarrow> bool" where
  "wf_scan proj H W = (length proj \<ge> 6 \<and> (\<forall>ch \<in> set proj. wf_grid ch H W))"

definition valid_values :: "real grid list \<Rightarrow> nat \<Rightarrow> real set" where
  "valid_values proj i = set (masked_vals (proj ! i) (b_mask_of (proj ! 5)))"

definition norm_px :: "real \<Rightarrow> real \<Rightarrow> fval \<Rightarrow> fval" where
  "norm_px lo hi x =
     fdiv (fsub (fdiv (fsub x (Fin lo)) (fsub (Fin hi) (Fin lo))) (Fin 0.5)) (Fin 0.5)"

definition norm_grid :: "real grid \<Rightarrow> bool grid \<Rightarrow> fval grid" where
  "norm_grid ch b =
     map2 (map2 (\<lambda>x m. if m then norm_px (Min (set (masked_vals ch b)))
                                      (Max (set (masked_vals ch b))) (Fin x)
                         else Fin x)) ch b"

definition data_channels :: "sample \<Rightarrow> fval grid list" where
  "data_channels s = proj_xyz s @ proj_range s @ proj_remission s"

text \<open>
  A small environment to instantiate the theorems: directory A lists three files and
  directory B two; the first scan has two valid pixels and one invalid pixel, and
  each of its channels takes two values at the valid pixels; in the second scan
  channel 2 is constant at the valid pixels.
\<close>

definition demo_scan :: "real grid list" where
  "demo_scan = [[[0, 1, 7]], [[2, 4, 7]], [[5, 6, 7]], [[1, 3, 7]], [[0, 10, 7]], [[1, 1, 0]]]"

definition demo_flat :: "real grid list" where
  "demo_flat = [[[0, 1, 7]], [[2, 4, 7]], [[5, 5, 7]], [[1, 3, 7]], [[0, 10, 7]], [[1, 1, 0]]]"

definition demo_fs :: filesystem where
  "demo_fs =
     \<lparr>listing = (\<lambda>d. if d = ''A'' then Some [''A/1'', ''A/0'', ''A/2'']
                     else if d = ''B'' then Some [''B/0'', ''B/1''] else None),
      npy = (\<lambda>f. if f = ''A/0'' then Some demo_scan
                 else if f = ''A/1'' then Some demo_flat else None)\<rparr>"

definition demo_stats :: stats where
  "demo_stats = [(''have_rgb'', SBool False)]"

definition demo_ds :: UnaryScan where
  "demo_ds = \<lparr>data_dir = ''A'', data_stats = demo_stats,
              scan_file_names = [''A/0'', ''A/1'', ''A/2'']\<rparr>"



section \<open>Properties\<close>

subsection \<open>The label lookup table\<close>










lemma lut_get_none:
  "resolve (lut_len lut) k = None \<Longrightarrow> lut_get lut k = Inl IndexError"
  by (cases lut) simp_all




























subsection \<open>The single-domain dataset\<close>

lemma assign_row_twice:
  "map2 (\<lambda>x m. if m then f x else x)
        (map2 (\<lambda>x m. if m then g x else x) (map Fin row) brow) brow
   = map2 (\<lambda>x m. if m then f (g (Fin x)) else Fin x) row brow"
proof (induction row arbitrary: brow)
  case Nil
  show ?case by simp
next
  case (Cons x row)
  then show ?case by (cases brow) simp_all
qed

lemma assign_masked_twice:
  "assign_masked f (assign_masked g (map (map Fin) a) b) b
   = map2 (map2 (\<lambda>x m. if m then f (g (Fin x)) else Fin x)) a b"
proof (induction a arbitrary: b)
  case Nil
  show ?case by (simp add: assign_masked_def)
next
  case (Cons row a)
  show ?case
  proof (cases b)
    case Nil
    then show ?thesis by (simp add: assign_masked_def)
  next
    case (Cons brow b')
    then show ?thesis
      using Cons.IH [of b'] assign_row_twice [of f g row brow]
      by (simp add: assign_masked_def)
  qed
qed

lemma normalize_channel_eq:
  assumes "masked_vals ch b \<noteq> []"
  shows "normalize_channel ch b = Inr (norm_grid ch b)"
proof -
  from assms obtain v vs where vv: "masked_vals ch b = v # vs" by (cases "masked_vals ch b") auto
  have mn: "np_min (masked_vals ch b) = Inr (Min (set (masked_vals ch b)))"
    using vv Min.set_eq_fold [of v vs] by (simp add: np_min_def)
  have mx: "np_max (masked_vals ch b) = Inr (Max (set (masked_vals ch b)))"
    using vv Max.set_eq_fold [of v vs] by (simp add: np_max_def)
  show ?thesis
    by (simp only: normalize_channel_def mn mx sum.case Let_def assign_masked_twice
        norm_px_def norm_grid_def)
qed


lemma normalize_all_eq:
  assumes "\<forall>ch \<in> set chs. masked_vals ch b \<noteq> []"
  shows "normalize_all chs b = Inr (map (\<lambda>ch. norm_grid ch b) chs)"
  using assms by (induction chs) (simp_all add: normalize_channel_eq)

lemma length_repeat: "length (concat (map (replicate k) xs)) = k * length xs"
  by (induction xs) simp_all

lemma nth_repeat:
  "i < k * length xs \<Longrightarrow> concat (map (replicate k) xs) ! i = xs ! (i div k)"
proof (induction xs arbitrary: i)
  case Nil
  then show ?case by simp
next
  case (Cons x xs)
  show ?case
  proof (cases "i < k")
    case True
    then show ?thesis by (simp add: nth_append)
  next
    case False
    then have k: "0 < k" "k \<le> i" using Cons.prems by (cases k; simp)+
    have "i - k < k * length xs" using Cons.prems False by simp
    from Cons.IH [OF this] have "concat (map (replicate k) xs) ! (i - k) = xs ! ((i - k) div k)" .
    moreover have "i div k = Suc ((i - k) div k)"
    proof -
      have "((i - k) + k) div k = (i - k) div k + 1" using k(1) by simp
      then show ?thesis using k(2) by simp
    qed
    ultimately show ?thesis using False by (simp add: nth_append)
  qed
qed

lemma wf_grid_nth: "wf_grid g H W \<Longrightarrow> r < H \<Longrightarrow> length (g ! r) = W"
  by (simp add: wf_grid_def)

lemma wf_grid_repeat: "wf_grid g H W \<Longrightarrow> wf_grid (concat (map (replicate k) g)) (k * H) W"
  by (auto simp: wf_grid_def length_repeat)

lemma wf_grid_map: "wf_grid g H W \<Longrightarrow> wf_grid (map (map f) g) H W"
  by (auto simp: wf_grid_def)

lemma wf_grid_map2:
  "wf_grid a H W \<Longrightarrow> wf_grid b H W \<Longrightarrow> wf_grid (map2 (map2 f) a b) H W"
proof -
  assume a: "wf_grid a H W" and b: "wf_grid b H W"
  have "length row = W" if "row \<in> set (map2 (map2 f) a b)" for row
  proof -
    from that obtain ra rb where "(ra, rb) \<in> set (zip a b)" and row: "row = map2 f ra rb"
      by auto
    then have "ra \<in> set a" "rb \<in> set b" by (auto dest: set_zip_leftD set_zip_rightD)
    then show ?thesis using a b row by (simp add: wf_grid_def)
  qed
  then show ?thesis using a b by (simp add: wf_grid_def)
qed

lemma nth_map2_grid:
  assumes "wf_grid a H W" "wf_grid b H W" "r < H" "w < W"
  shows "map2 (map2 f) a b ! r ! w = f (a ! r ! w) (b ! r ! w)"
  using assms by (simp add: wf_grid_def)

lemma masked_vals_mem:
  assumes "wf_grid ch H W" "wf_grid b H W" "r < H" "w < W" "b ! r ! w"
  shows "ch ! r ! w \<in> set (masked_vals ch b)"
proof -
  have lr: "length (ch ! r) = W" "length (b ! r) = W"
    using assms by (simp_all add: wf_grid_def)
  have len: "length ch = H" "length b = H" using assms by (simp_all add: wf_grid_def)
  have "zip ch b ! r = (ch ! r, b ! r)" "r < length (zip ch b)"
    using assms(3) len by simp_all
  then have p1: "(ch ! r, b ! r) \<in> set (zip ch b)" by (metis nth_mem)
  have "zip (ch ! r) (b ! r) ! w = (ch ! r ! w, True)" "w < length (zip (ch ! r) (b ! r))"
    using assms(4,5) lr by simp_all
  then have "(ch ! r ! w, True) \<in> set (zip (ch ! r) (b ! r))" by (metis nth_mem)
  then have "(ch ! r ! w, True) \<in> set (filter snd (zip (ch ! r) (b ! r)))" by simp
  then have "fst (ch ! r ! w, True) \<in> fst ` set (filter snd (zip (ch ! r) (b ! r)))"
    by (rule imageI)
  then have p2: "ch ! r ! w \<in> set (map fst (filter snd (zip (ch ! r) (b ! r))))" by simp
  have "set (masked_vals ch b)
        = (\<Union>p \<in> set (zip ch b). set (map fst (filter snd (zip (fst p) (snd p)))))"
    unfolding masked_vals_def by (simp add: case_prod_beta)
  moreover have "ch ! r ! w \<in> (\<Union>p \<in> set (zip ch b). set (map fst (filter snd (zip (fst p) (snd p)))))"
    by (rule UN_I [OF p1]) (use p2 in simp)
  ultimately show ?thesis by simp
qed


lemma take_3_1_1: "take 3 xs @ take 1 (drop 3 xs) @ take 1 (drop 4 xs) = take 5 xs"
proof -
  have "take (3 + (1 + 1)) xs = take 3 xs @ take 1 (drop 3 xs) @ take 1 (drop 1 (drop 3 xs))"
    by (simp only: take_add)
  then show ?thesis by simp
qed

lemma times_mask_append: "times_mask (xs @ ys) m = times_mask xs m @ times_mask ys m"
  by (simp add: times_mask_def)

lemma rescale_rgb_length: "length (rescale_rgb p) = length p"
  by (simp add: rescale_rgb_def)

lemma rescale_rgb_nth: "c < 6 \<Longrightarrow> 6 \<le> length p \<Longrightarrow> rescale_rgb p ! c = p ! c"
  by (simp add: rescale_rgb_def nth_append)

lemma wf_scan_nth: "wf_scan proj H W \<Longrightarrow> c < length proj \<Longrightarrow> wf_grid (proj ! c) H W"
  by (simp add: wf_scan_def)

lemma wf_b_mask: "wf_grid m H W \<Longrightarrow> wf_grid (b_mask_of m) H W"
  by (simp add: b_mask_of_def wf_grid_map)

lemma b_mask_nth:
  "wf_grid m H W \<Longrightarrow> r < H \<Longrightarrow> w < W \<Longrightarrow> b_mask_of m ! r ! w \<longleftrightarrow> m ! r ! w = 1"
  by (simp add: b_mask_of_def wf_grid_def)

lemma norm_grid_wf:
  "wf_grid ch H W \<Longrightarrow> wf_grid b H W \<Longrightarrow> wf_grid (norm_grid ch b) H W"
  unfolding norm_grid_def by (rule wf_grid_map2)

lemma norm_grid_nth:
  assumes "wf_grid ch H W" "wf_grid b H W" "r < H" "w < W"
  shows "norm_grid ch b ! r ! w =
           (if b ! r ! w
            then norm_px (Min (set (masked_vals ch b))) (Max (set (masked_vals ch b)))
                   (Fin (ch ! r ! w))
            else Fin (ch ! r ! w))"
  unfolding norm_grid_def by (rule nth_map2_grid [OF assms])

lemma getitem_unfold:
  assumes idx: "py_index (scan_file_names ds) index = Some f"
    and ld: "npy fs f = Some proj"
    and wf: "wf_scan proj H W"
    and key: "map_of (data_stats ds) ''have_rgb'' = Some hr"
    and valid: "\<forall>c < 5. valid_values proj c \<noteq> {}"
  shows "\<exists>p2. UnaryScan_getitem ds fs index =
           Inr \<lparr>proj_xyz = times_mask (take 3 (np_repeat_axis1 4 p2)) (np_repeat_axis1 4 p2 ! 5),
                proj_range = times_mask (take 1 (drop 3 (np_repeat_axis1 4 p2))) (np_repeat_axis1 4 p2 ! 5),
                proj_remission = times_mask (take 1 (drop 4 (np_repeat_axis1 4 p2))) (np_repeat_axis1 4 p2 ! 5),
                proj_mask = [np_repeat_axis1 4 p2 ! 5],
                proj_rgb = (if truthy hr
                            then Some (times_mask (take 3 (drop 6 (np_repeat_axis1 4 p2))) (np_repeat_axis1 4 p2 ! 5))
                            else None)\<rparr>
         \<and> length p2 = length proj
         \<and> (\<forall>c < 5. p2 ! c = norm_grid (proj ! c) (b_mask_of (proj ! 5)))
         \<and> p2 ! 5 = map (map Fin) (proj ! 5)"
proof -
  let ?b = "b_mask_of (proj ! 5)"
  let ?p1 = "map (\<lambda>ch. norm_grid ch ?b) (take 5 proj) @ map (map (map Fin)) (drop 5 proj)"
  let ?p2 = "if truthy hr then rescale_rgb ?p1 else ?p1"
  have len: "6 \<le> length proj" using wf by (simp add: wf_scan_def)
  have wfm: "wf_grid (proj ! 5) H W" using wf len by (simp add: wf_scan_nth)
  have wfb: "wf_grid ?b H W" using wfm by (rule wf_b_mask)
  have ne: "\<forall>ch \<in> set (take 5 proj). masked_vals ch ?b \<noteq> []"
  proof
    fix ch assume "ch \<in> set (take 5 proj)"
    then obtain c where "c < length (take 5 proj)" "ch = take 5 proj ! c"
      by (auto simp: in_set_conv_nth)
    then have "c < 5" "ch = proj ! c" by simp_all
    then show "masked_vals ch ?b \<noteq> []" using valid by (auto simp: valid_values_def)
  qed
  have na: "normalize_all (take 5 proj) ?b = Inr (map (\<lambda>ch. norm_grid ch ?b) (take 5 proj))"
    using ne by (rule normalize_all_eq)
  have l1: "length ?p1 = length proj" using len by simp
  have l2: "length ?p2 = length proj" using l1 by (simp add: rescale_rgb_length)
  have n1: "?p1 ! c = norm_grid (proj ! c) ?b" if "c < 5" for c
    using that len by (simp add: nth_append)
  have n15: "?p1 ! 5 = map (map Fin) (proj ! 5)"
    using len by (simp add: nth_append min_def)
  have n2: "?p2 ! c = ?p1 ! c" if "c < 6" for c
    using that l1 len by (simp add: rescale_rgb_nth)
  have "UnaryScan_getitem ds fs index =
           Inr \<lparr>proj_xyz = times_mask (take 3 (np_repeat_axis1 4 ?p2)) (np_repeat_axis1 4 ?p2 ! 5),
                proj_range = times_mask (take 1 (drop 3 (np_repeat_axis1 4 ?p2))) (np_repeat_axis1 4 ?p2 ! 5),
                proj_remission = times_mask (take 1 (drop 4 (np_repeat_axis1 4 ?p2))) (np_repeat_axis1 4 ?p2 ! 5),
                proj_mask = [np_repeat_axis1 4 ?p2 ! 5],
                proj_rgb = (if truthy hr
                            then Some (times_mask (take 3 (drop 6 (np_repeat_axis1 4 ?p2))) (np_repeat_axis1 4 ?p2 ! 5))
                            else None)\<rparr>"
    unfolding UnaryScan_getitem_def using idx ld len na key
    by (simp add: Let_def)
  moreover have "\<forall>c < 5. ?p2 ! c = norm_grid (proj ! c) ?b"
    using n1 n2 by simp
  moreover have "?p2 ! 5 = map (map Fin) (proj ! 5)" using n2 [of 5] n15 by simp
  ultimately show ?thesis using l2 by blast
qed


lemma repeat_grid_nth:
  assumes "wf_grid g H W" "r < k * H"
  shows "concat (map (replicate k) g) ! r = g ! (r div k)"
  using assms by (simp add: wf_grid_def nth_repeat)

lemma div_less_rows: "r < 4 * H \<Longrightarrow> r div 4 < (H::nat)"
  by (simp add: less_mult_imp_div_less mult.commute)

lemma getitem_pixels:
  assumes idx: "py_index (scan_file_names ds) index = Some f"
    and ld: "npy fs f = Some proj"
    and wf: "wf_scan proj H W"
    and key: "map_of (data_stats ds) ''have_rgb'' = Some hr"
    and valid: "\<forall>c < 5. valid_values proj c \<noteq> {}"
  shows "\<exists>s. UnaryScan_getitem ds fs index = Inr s
     \<and> length (proj_xyz s) = 3 \<and> length (proj_range s) = 1
     \<and> length (proj_remission s) = 1 \<and> length (proj_mask s) = 1
     \<and> (\<forall>c < 5. wf_grid (data_channels s ! c) (4 * H) W)
     \<and> wf_grid (proj_mask s ! 0) (4 * H) W
     \<and> (\<forall>c < 5. \<forall>r < 4 * H. \<forall>w < W.
           data_channels s ! c ! r ! w =
             fmul (if proj ! 5 ! (r div 4) ! w = 1
                   then norm_px (Min (valid_values proj c)) (Max (valid_values proj c))
                          (Fin (proj ! c ! (r div 4) ! w))
                   else Fin (proj ! c ! (r div 4) ! w))
                  (Fin (proj ! 5 ! (r div 4) ! w)))
     \<and> (\<forall>r < 4 * H. \<forall>w < W. proj_mask s ! 0 ! r ! w = Fin (proj ! 5 ! (r div 4) ! w))"
proof -
  let ?b = "b_mask_of (proj ! 5)"
  from getitem_unfold [OF assms] obtain p2 where
    g: "UnaryScan_getitem ds fs index =
           Inr \<lparr>proj_xyz = times_mask (take 3 (np_repeat_axis1 4 p2)) (np_repeat_axis1 4 p2 ! 5),
                proj_range = times_mask (take 1 (drop 3 (np_repeat_axis1 4 p2))) (np_repeat_axis1 4 p2 ! 5),
                proj_remission = times_mask (take 1 (drop 4 (np_repeat_axis1 4 p2))) (np_repeat_axis1 4 p2 ! 5),
                proj_mask = [np_repeat_axis1 4 p2 ! 5],
                proj_rgb = (if truthy hr
                            then Some (times_mask (take 3 (drop 6 (np_repeat_axis1 4 p2))) (np_repeat_axis1 4 p2 ! 5))
                            else None)\<rparr>"
    and l2: "length p2 = length proj"
    and n2: "\<forall>c < 5. p2 ! c = norm_grid (proj ! c) ?b"
    and n25: "p2 ! 5 = map (map Fin) (proj ! 5)"
    by blast
  let ?p3 = "np_repeat_axis1 4 p2"
  let ?mask = "?p3 ! 5"
  let ?s = "\<lparr>proj_xyz = times_mask (take 3 ?p3) ?mask,
             proj_range = times_mask (take 1 (drop 3 ?p3)) ?mask,
             proj_remission = times_mask (take 1 (drop 4 ?p3)) ?mask,
             proj_mask = [?mask],
             proj_rgb = (if truthy hr then Some (times_mask (take 3 (drop 6 ?p3)) ?mask)
                         else None)\<rparr>"
  have len: "6 \<le> length proj" using wf by (simp add: wf_scan_def)
  have l3: "length ?p3 = length proj" using l2 by (simp add: np_repeat_axis1_def)
  have wfm: "wf_grid (proj ! 5) H W" using wf len by (simp add: wf_scan_nth)
  have wfb: "wf_grid ?b H W" using wfm by (rule wf_b_mask)
  have wfl: "wf_grid (map (map Fin) (proj ! 5)) H W" using wfm by (rule wf_grid_map)
  have wfc: "wf_grid (proj ! c) H W" if "c < 5" for c
    using wf len that by (simp add: wf_scan_nth)
  have wfn: "wf_grid (norm_grid (proj ! c) ?b) H W" if "c < 5" for c
    using wfc [OF that] wfb by (rule norm_grid_wf)
  have p3c: "?p3 ! c = concat (map (replicate 4) (norm_grid (proj ! c) ?b))" if "c < 5" for c
    using that n2 l2 len by (simp add: np_repeat_axis1_def)
  have mk: "?mask = concat (map (replicate 4) (map (map Fin) (proj ! 5)))"
    using n25 l2 len by (simp add: np_repeat_axis1_def)
  have wf3: "wf_grid (?p3 ! c) (4 * H) W" if "c < 5" for c
    unfolding p3c [OF that] using wfn [OF that] by (rule wf_grid_repeat)
  have wfk: "wf_grid ?mask (4 * H) W"
    unfolding mk using wfl by (rule wf_grid_repeat)
  have dc: "data_channels ?s = times_mask (take 5 ?p3) ?mask"
    unfolding data_channels_def
    by (simp only: sample.simps times_mask_append [symmetric] take_3_1_1)
  have dcn: "data_channels ?s ! c = map2 (map2 fmul) (?p3 ! c) ?mask" if "c < 5" for c
    unfolding dc using that l3 len by (simp add: times_mask_def)
  have c1: "length (proj_xyz ?s) = 3" "length (proj_range ?s) = 1"
    "length (proj_remission ?s) = 1" "length (proj_mask ?s) = 1"
    using l3 len by (simp_all add: times_mask_def)
  have c2: "\<forall>c < 5. wf_grid (data_channels ?s ! c) (4 * H) W"
    using dcn wf3 wfk by (simp add: wf_grid_map2)
  have c3: "wf_grid (proj_mask ?s ! 0) (4 * H) W" using wfk by simp
  have mpx: "?mask ! r ! w = Fin (proj ! 5 ! (r div 4) ! w)" if "r < 4 * H" "w < W" for r w
  proof -
    have "?mask ! r = map (map Fin) (proj ! 5) ! (r div 4)"
      unfolding mk using wfl that(1) by (rule repeat_grid_nth)
    then show ?thesis using wfm div_less_rows [OF that(1)] that(2) by (simp add: wf_grid_def)
  qed
  have c4: "\<forall>r < 4 * H. \<forall>w < W. proj_mask ?s ! 0 ! r ! w = Fin (proj ! 5 ! (r div 4) ! w)"
    using mpx by simp
  have c5: "data_channels ?s ! c ! r ! w =
             fmul (if proj ! 5 ! (r div 4) ! w = 1
                   then norm_px (Min (valid_values proj c)) (Max (valid_values proj c))
                          (Fin (proj ! c ! (r div 4) ! w))
                   else Fin (proj ! c ! (r div 4) ! w))
                  (Fin (proj ! 5 ! (r div 4) ! w))"
    if "c < 5" "r < 4 * H" "w < W" for c r w
  proof -
    have r4: "r div 4 < H" using that(2) by (rule div_less_rows)
    have "data_channels ?s ! c ! r ! w = fmul (?p3 ! c ! r ! w) (?mask ! r ! w)"
      unfolding dcn [OF that(1)] by (rule nth_map2_grid [OF wf3 [OF that(1)] wfk that(2,3)])
    moreover have "?p3 ! c ! r = norm_grid (proj ! c) ?b ! (r div 4)"
      unfolding p3c [OF that(1)] using wfn [OF that(1)] that(2) by (rule repeat_grid_nth)
    moreover have "norm_grid (proj ! c) ?b ! (r div 4) ! w =
        (if ?b ! (r div 4) ! w
         then norm_px (Min (set (masked_vals (proj ! c) ?b))) (Max (set (masked_vals (proj ! c) ?b)))
                (Fin (proj ! c ! (r div 4) ! w))
         else Fin (proj ! c ! (r div 4) ! w))"
      by (rule norm_grid_nth [OF wfc [OF that(1)] wfb r4 that(3)])
    moreover have "?b ! (r div 4) ! w \<longleftrightarrow> proj ! 5 ! (r div 4) ! w = 1"
      by (rule b_mask_nth [OF wfm r4 that(3)])
    ultimately show ?thesis using mpx [OF that(2,3)] by (simp add: valid_values_def)
  qed
  show ?thesis
    using g c1 c2 c3 c4 c5 by (intro exI [of _ ?s]) blast
qed

lemma masked_vals_elem:
  assumes "x \<in> set (masked_vals ch b)"
  shows "\<exists>r w. r < length ch \<and> r < length b \<and> w < length (ch ! r) \<and> w < length (b ! r)
           \<and> b ! r ! w \<and> x = ch ! r ! w"
proof -
  from assms obtain row brow where rb: "(row, brow) \<in> set (zip ch b)"
    and x: "x \<in> set (map fst (filter snd (zip row brow)))"
    unfolding masked_vals_def by auto
  from rb obtain r where r: "r < length ch" "r < length b" "row = ch ! r" "brow = b ! r"
    by (auto simp: set_zip)
  from x have "(x, True) \<in> set (zip row brow)" by auto
  then obtain w where "w < length row" "w < length brow" "row ! w = x" "brow ! w"
    by (auto simp: set_zip)
  then show ?thesis using r by blast
qed

lemma masked_vals_nonempty_transfer:
  assumes "wf_grid ch H W" "wf_grid ch' H W" "wf_grid b H W" "masked_vals ch b \<noteq> []"
  shows "masked_vals ch' b \<noteq> []"
proof -
  from assms(4) obtain x where "x \<in> set (masked_vals ch b)" by (cases "masked_vals ch b") auto
  from masked_vals_elem [OF this] obtain r w where
    rw: "r < length b" "w < length (b ! r)" "b ! r ! w" by blast
  then have "r < H" "w < W" using assms(3) by (auto simp: wf_grid_def)
  from masked_vals_mem [OF assms(2,3) this rw(3)] show ?thesis by auto
qed

lemma valid_values_nonempty:
  assumes wf: "wf_scan proj H W" and i: "i < 5" and ne: "valid_values proj i \<noteq> {}"
  shows "\<forall>c < 5. valid_values proj c \<noteq> {}"
proof (intro allI impI)
  fix c :: nat assume c: "c < 5"
  have len: "6 \<le> length proj" using wf by (simp add: wf_scan_def)
  have "wf_grid (proj ! i) H W" "wf_grid (proj ! c) H W" "wf_grid (b_mask_of (proj ! 5)) H W"
    using wf len i c by (simp_all add: wf_scan_nth wf_b_mask)
  from masked_vals_nonempty_transfer [OF this] ne
  show "valid_values proj c \<noteq> {}" by (simp add: valid_values_def)
qed

lemma valid_pixel_value:
  assumes wf: "wf_scan proj H W" and c: "c < 5" and r: "r < H" and w: "w < W"
    and m: "proj ! 5 ! r ! w = 1"
  shows "proj ! c ! r ! w \<in> valid_values proj c"
proof -
  have len: "6 \<le> length proj" using wf by (simp add: wf_scan_def)
  have wfm: "wf_grid (proj ! 5) H W" and wfc: "wf_grid (proj ! c) H W"
    using wf len c by (simp_all add: wf_scan_nth)
  have "b_mask_of (proj ! 5) ! r ! w" using b_mask_nth [OF wfm r w] m by simp
  from masked_vals_mem [OF wfc wf_b_mask [OF wfm] r w this]
  show ?thesis by (simp add: valid_values_def)
qed



lemma norm_px_constant: "norm_px v v (Fin v) = NaN"
  by (simp add: norm_px_def)

lemma all_less_5:
  "(\<forall>c < (5::nat). P c) \<longleftrightarrow> P 0 \<and> P (Suc 0) \<and> P 2 \<and> P 3 \<and> P 4"
proof -
  have e: "c < 5 \<longleftrightarrow> c = 0 \<or> c = 1 \<or> c = 2 \<or> c = 3 \<or> c = 4" for c :: nat by arith
  show ?thesis by (auto simp: e)
qed


text \<open>
  Claim C7. Let the scan at the index be loadable and of shape (channels, H, W), and
  let channel \<open>i\<close> among 0-4 take a single value at the valid pixels. Then the
  divisor \<^verbatim>\<open>Max - Min\<close> of the normalisation of that channel is zero, no exception is
  raised and indexed access returns; there are valid pixels, and at each of them
  the returned channel \<open>i\<close> holds \<^verbatim>\<open>nan\<close>, the result of dividing zero by zero.
\<close>

theorem constant_channel_division_by_zero:
  assumes idx: "py_index (scan_file_names ds) index = Some f"
    and ld: "npy fs f = Some proj"
    and wf: "wf_scan proj H W"
    and key: "map_of (data_stats ds) ''have_rgb'' = Some hr"
    and i: "i < 5"
    and const: "valid_values proj i = {v}"
  shows "Max (valid_values proj i) - Min (valid_values proj i) = 0 \<and>
         (\<exists>s. UnaryScan_getitem ds fs index = Inr s \<and>
            (\<exists>r < 4 * H. \<exists>w < W. proj_mask s ! 0 ! r ! w = Fin 1) \<and>
            (\<forall>r < 4 * H. \<forall>w < W.
               proj_mask s ! 0 ! r ! w = Fin 1 \<longrightarrow> data_channels s ! i ! r ! w = NaN))"
proof -
  have ne: "\<forall>c < 5. valid_values proj c \<noteq> {}"
    using valid_values_nonempty [OF wf i] const by simp
  from getitem_pixels [OF idx ld wf key ne] obtain s where
    g: "UnaryScan_getitem ds fs index = Inr s"
    and px: "\<forall>c < 5. \<forall>r < 4 * H. \<forall>w < W.
           data_channels s ! c ! r ! w =
             fmul (if proj ! 5 ! (r div 4) ! w = 1
                   then norm_px (Min (valid_values proj c)) (Max (valid_values proj c))
                          (Fin (proj ! c ! (r div 4) ! w))
                   else Fin (proj ! c ! (r div 4) ! w))
                  (Fin (proj ! 5 ! (r div 4) ! w))"
    and mk: "\<forall>r < 4 * H. \<forall>w < W. proj_mask s ! 0 ! r ! w = Fin (proj ! 5 ! (r div 4) ! w)"
    by blast
  have len: "6 \<le> length proj" using wf by (simp add: wf_scan_def)
  have wfm: "wf_grid (proj ! 5) H W" using wf len by (simp add: wf_scan_nth)
  have mm: "Min (valid_values proj i) = v" "Max (valid_values proj i) = v"
    using const by simp_all
  have nan: "data_channels s ! i ! r ! w = NaN"
    if r: "r < 4 * H" and w: "w < W" and m: "proj_mask s ! 0 ! r ! w = Fin 1" for r w
  proof -
    have r4: "r div 4 < H" using r by (rule div_less_rows)
    have m1: "proj ! 5 ! (r div 4) ! w = 1" using mk r w m by simp
    have "proj ! i ! (r div 4) ! w \<in> valid_values proj i"
      using valid_pixel_value [OF wf i r4 w m1] .
    then have "proj ! i ! (r div 4) ! w = v" using const by simp
    then show ?thesis using px i r w m1 mm by (simp add: norm_px_constant)
  qed
  have ex: "\<exists>r < 4 * H. \<exists>w < W. proj_mask s ! 0 ! r ! w = Fin 1"
  proof -
    have "v \<in> set (masked_vals (proj ! i) (b_mask_of (proj ! 5)))"
      using const by (simp add: valid_values_def)
    from masked_vals_elem [OF this] obtain r w where
      rw: "r < length (b_mask_of (proj ! 5))" "w < length (b_mask_of (proj ! 5) ! r)"
        "b_mask_of (proj ! 5) ! r ! w" by blast
    have wfb: "wf_grid (b_mask_of (proj ! 5)) H W" using wfm by (rule wf_b_mask)
    have r: "r < H" and w: "w < W" using rw wfb by (auto simp: wf_grid_def)
    have m1: "proj ! 5 ! r ! w = 1" using b_mask_nth [OF wfm r w] rw(3) by simp
    have "4 * r < 4 * H" using r by simp
    moreover have "proj_mask s ! 0 ! (4 * r) ! w = Fin 1" using mk \<open>4 * r < 4 * H\<close> w m1 by simp
    ultimately show ?thesis using w by blast
  qed
  show ?thesis using g nan ex mm by auto
qed

lemma demo_idx0: "py_index (scan_file_names demo_ds) 0 = Some ''A/0''"
  by (simp add: demo_ds_def py_index_def)

lemma demo_idx1: "py_index (scan_file_names demo_ds) 1 = Some ''A/1''"
  by (simp add: demo_ds_def py_index_def)

lemma demo_ld0: "npy demo_fs ''A/0'' = Some demo_scan"
  by (simp add: demo_fs_def)

lemma demo_ld1: "npy demo_fs ''A/1'' = Some demo_flat"
  by (simp add: demo_fs_def)

lemma demo_wf: "wf_scan demo_scan 1 3" "wf_scan demo_flat 1 3"
  by (simp_all add: demo_scan_def demo_flat_def wf_scan_def wf_grid_def)

lemma demo_key: "map_of (data_stats demo_ds) ''have_rgb'' = Some (SBool False)"
  by (simp add: demo_ds_def demo_stats_def)

lemma demo_scan_values:
  "valid_values demo_scan 0 = {0, 1}" "valid_values demo_scan (Suc 0) = {2, 4}"
  "valid_values demo_scan 2 = {5, 6}" "valid_values demo_scan 3 = {1, 3}"
  "valid_values demo_scan 4 = {0, 10}"
  by (simp_all add: valid_values_def demo_scan_def masked_vals_def b_mask_of_def)

lemma demo_flat_values: "valid_values demo_flat 2 = {5}"
  by (simp add: valid_values_def demo_flat_def masked_vals_def b_mask_of_def)


text \<open>
  The second scan of the example environment: channel 2 is constant at the valid
  pixels, and the returned channel holds \<^verbatim>\<open>nan\<close> at a valid pixel.
\<close>

theorem constant_channel_division_by_zero_witness:
  "Max (valid_values demo_flat 2) - Min (valid_values demo_flat 2) = 0 \<and>
   (\<exists>s. UnaryScan_getitem demo_ds demo_fs 1 = Inr s \<and>
      (\<exists>r < 4. \<exists>w < 3. proj_mask s ! 0 ! r ! w = Fin 1 \<and> data_channels s ! 2 ! r ! w = NaN))"
proof -
  have i: "(2::nat) < 5" by simp
  from constant_channel_division_by_zero
    [OF demo_idx1 demo_ld1 demo_wf(2) demo_key i demo_flat_values]
  obtain s where d: "Max (valid_values demo_flat 2) - Min (valid_values demo_flat 2) = 0"
    and g: "UnaryScan_getitem demo_ds demo_fs 1 = Inr s"
    and ex: "\<exists>r < 4 * 1. \<exists>w < 3. proj_mask s ! 0 ! r ! w = Fin 1"
    and nan: "\<forall>r < 4 * 1. \<forall>w < 3.
               proj_mask s ! 0 ! r ! w = Fin 1 \<longrightarrow> data_channels s ! 2 ! r ! w = NaN"
    by blast
  from ex obtain r w where rw: "r < 4 * 1" "w < 3" "proj_mask s ! 0 ! r ! w = Fin 1"
    by blast
  with nan have "data_channels s ! 2 ! r ! w = NaN" by blast
  with rw have "\<exists>r < 4. \<exists>w < 3. proj_mask s ! 0 ! r ! w = Fin 1 \<and>
      data_channels s ! 2 ! r ! w = NaN"
    by auto
  with d g show ?thesis by blast
qed

text \<open>
  Claim C4, amended. Indexed access repeats the loaded grid four times along axis 1,
  which for an array of shape (channels, H, W) is the height: every channel of the
  returned xyz, range, remission and mask tensors has 4H rows of W pixels, and row
  \<open>r\<close> of the returned mask is row \<open>r div 4\<close> of the loaded mask. (The scan is
  loadable and has a valid pixel, so that indexed access returns.)
\<close>

theorem repeat_along_height:
  assumes idx: "py_index (scan_file_names ds) index = Some f"
    and ld: "npy fs f = Some proj"
    and wf: "wf_scan proj H W"
    and key: "map_of (data_stats ds) ''have_rgb'' = Some hr"
    and valid: "r0 < H" "w0 < W" "proj ! 5 ! r0 ! w0 = 1"
  shows "\<exists>s. UnaryScan_getitem ds fs index = Inr s
     \<and> length (proj_xyz s) = 3 \<and> length (proj_range s) = 1
     \<and> length (proj_remission s) = 1 \<and> length (proj_mask s) = 1
     \<and> (\<forall>t \<in> set (proj_xyz s @ proj_range s @ proj_remission s @ proj_mask s).
           length t = 4 * H \<and> (\<forall>row \<in> set t. length row = W))
     \<and> (\<forall>r < 4 * H. \<forall>w < W. proj_mask s ! 0 ! r ! w = Fin (proj ! 5 ! (r div 4) ! w))"
proof -
  have ne: "\<forall>c < 5. valid_values proj c \<noteq> {}"
    using valid_pixel_value [OF wf _ valid] by blast
  from getitem_pixels [OF idx ld wf key ne] obtain s where
    g: "UnaryScan_getitem ds fs index = Inr s"
    and ls: "length (proj_xyz s) = 3" "length (proj_range s) = 1"
      "length (proj_remission s) = 1" "length (proj_mask s) = 1"
    and wd: "\<forall>c < 5. wf_grid (data_channels s ! c) (4 * H) W"
    and wm: "wf_grid (proj_mask s ! 0) (4 * H) W"
    and mk: "\<forall>r < 4 * H. \<forall>w < W. proj_mask s ! 0 ! r ! w = Fin (proj ! 5 ! (r div 4) ! w)"
    by blast
  have ld5: "length (data_channels s) = 5" using ls by (simp add: data_channels_def)
  have "wf_grid t (4 * H) W"
    if "t \<in> set (proj_xyz s @ proj_range s @ proj_remission s @ proj_mask s)" for t
  proof -
    from that have "t \<in> set (data_channels s) \<or> t \<in> set (proj_mask s)"
      by (auto simp: data_channels_def)
    then show ?thesis
    proof
      assume "t \<in> set (data_channels s)"
      then obtain c where "c < 5" "t = data_channels s ! c"
        using ld5 by (auto simp: in_set_conv_nth)
      then show ?thesis using wd by simp
    next
      assume "t \<in> set (proj_mask s)"
      then obtain c where "c < 1" "t = proj_mask s ! c"
        using ls(4) by (auto simp: in_set_conv_nth)
      then show ?thesis using wm by simp
    qed
  qed
  then have "\<forall>t \<in> set (proj_xyz s @ proj_range s @ proj_remission s @ proj_mask s).
           length t = 4 * H \<and> (\<forall>row \<in> set t. length row = W)"
    by (simp add: wf_grid_def)
  then show ?thesis using g ls mk by blast
qed

text \<open>
  The first scan of the example environment has shape (6, 1, 3): the returned mask
  has 4 rows of 3 pixels.
\<close>

theorem repeat_along_height_witness:
  "\<exists>s. UnaryScan_getitem demo_ds demo_fs 0 = Inr s
     \<and> length (proj_xyz s) = 3
     \<and> length (proj_mask s ! 0) = 4 \<and> length (proj_mask s ! 0 ! 0) = 3
     \<and> proj_mask s ! 0 ! 3 ! 2 = Fin 0"
proof -
  have v: "(0::nat) < 1" "(0::nat) < 3" "demo_scan ! 5 ! 0 ! 0 = 1"
    by (simp_all add: demo_scan_def)
  from repeat_along_height [OF demo_idx0 demo_ld0 demo_wf(1) demo_key v] obtain s where
    g: "UnaryScan_getitem demo_ds demo_fs 0 = Inr s"
    and ls: "length (proj_xyz s) = 3" "length (proj_mask s) = 1"
    and sh: "\<forall>t \<in> set (proj_xyz s @ proj_range s @ proj_remission s @ proj_mask s).
           length t = 4 * 1 \<and> (\<forall>row \<in> set t. length row = 3)"
    and mk: "\<forall>r < 4 * 1. \<forall>w < 3. proj_mask s ! 0 ! r ! w = Fin (demo_scan ! 5 ! (r div 4) ! w)"
    by blast
  have m: "proj_mask s ! 0 \<in> set (proj_xyz s @ proj_range s @ proj_remission s @ proj_mask s)"
    using ls(2) by simp
  then have l4: "length (proj_mask s ! 0) = 4" using sh by auto
  then have "proj_mask s ! 0 ! 0 \<in> set (proj_mask s ! 0)" by simp
  then have l3: "length (proj_mask s ! 0 ! 0) = 3" using sh m by blast
  have "proj_mask s ! 0 ! 3 ! 2 = Fin (demo_scan ! 5 ! (3 div 4) ! 2)" using mk by simp
  then have "proj_mask s ! 0 ! 3 ! 2 = Fin 0" by (simp add: demo_scan_def)
  then show ?thesis using g ls l4 l3 by blast
qed

text \<open>
  Claim C4 as stated fails: for the first scan of the example environment, of one
  row of three pixels, the returned xyz tensor has four rows of three pixels (not
  one row of twelve).
\<close>

theorem repeat_along_width_counterexample:
  "\<exists>s. UnaryScan_getitem demo_ds demo_fs 0 = Inr s
     \<and> length (demo_scan ! 0) = 1 \<and> length (demo_scan ! 0 ! 0) = 3
     \<and> length (proj_xyz s ! 0) = 4 \<and> length (proj_xyz s ! 0 ! 0) = 3"
proof -
  have ne: "\<forall>c < 5. valid_values demo_scan c \<noteq> {}"
    by (simp add: all_less_5 demo_scan_values)
  from getitem_pixels [OF demo_idx0 demo_ld0 demo_wf(1) demo_key ne] obtain s where
    g: "UnaryScan_getitem demo_ds demo_fs 0 = Inr s"
    and ls: "length (proj_xyz s) = 3"
    and wd: "\<forall>c < 5. wf_grid (data_channels s ! c) (4 * 1) 3"
    by blast
  have "data_channels s ! 0 = proj_xyz s ! 0" using ls by (simp add: data_channels_def nth_append)
  moreover have "wf_grid (data_channels s ! 0) (4 * 1) 3" using wd by simp
  ultimately have w: "wf_grid (proj_xyz s ! 0) 4 3" by simp
  then have "length (proj_xyz s ! 0) = 4" by (simp add: wf_grid_def)
  moreover from this w have "length (proj_xyz s ! 0 ! 0) = 3" by (simp add: wf_grid_def)
  ultimately show ?thesis using g by (simp add: demo_scan_def)
qed

subsection \<open>The paired dataset\<close>

lemma BinaryScan_len_stats:
  "BinaryScan_init fs dA sA dB sB m = Inr bs \<Longrightarrow>
     BinaryScan_len bs = max (length sA) (length sB)"
  by (auto simp: BinaryScan_init_def BinaryScan_len_def split: sum.splits)

text \<open>
  Claim C1 does not hold of the code. In the example environment dataset A has three
  scans and dataset B two, and each sensor-statistics dictionary has one key: the
  paired dataset reports length 1 (not 3), and index 1 is mapped to sample 0 of
  dataset A (not to sample 1).
\<close>

theorem binary_len_counts_statistics:
  "\<exists>bs. BinaryScan_init demo_fs ''A'' demo_stats ''B'' demo_stats (- 1) = Inr bs
     \<and> UnaryScan_len (datasetA bs) = 3 \<and> UnaryScan_len (datasetB bs) = 2
     \<and> BinaryScan_len bs = 1
     \<and> BinaryScan_index_A bs 1 = Inr 0"
  by (simp add: BinaryScan_init_def UnaryScan_init_def demo_fs_def demo_stats_def
      UnaryScan_len_def BinaryScan_len_def BinaryScan_index_A_def)

subsection \<open>The loader\<close>


















subsection \<open>Range conversions\<close>

text \<open>
  Claim C9. The two range conversions are mutually inverse: for every tensor \<open>x\<close>,
  converting from the sigmoid range to the tanh range and back gives \<open>x\<close> again, and
  so does converting from the tanh range to the sigmoid range and back (in exact
  arithmetic).
\<close>

theorem range_conversions_inverse:
  "tanh_to_sigmoid (sigmoid_to_tanh x) = x \<and> sigmoid_to_tanh (tanh_to_sigmoid x) = x"
proof -
  have "(\<lambda>v::real. (v * 2 - 1 + 1) / 2) = (\<lambda>v. v)"
    by (rule ext) simp
  moreover have "(\<lambda>v::real. (v + 1) / 2 * 2 - 1) = (\<lambda>v. v)"
    by (rule ext) (simp add: field_simps)
  ultimately show ?thesis
    by (simp add: sigmoid_to_tanh_def tanh_to_sigmoid_def comp_def)
qed

end
